theory Spec2Isabelle
  imports Main
begin

section \<open>Python values, exceptions and effects\<close>

text \<open>
  The program is one Python module, \<^verbatim>\<open>a10.py\<close>: a query loop that tokenizes a line,
  looks the tokens up in a table of (pattern, action) pairs and prints what the action
  of the first matching pattern returns. The actions fetch a Wikipedia page, cut out its
  first infobox and pull one field out of it with a regular expression.

  Strings are \<^typ>\<open>string\<close>; tokens and captures are lists of strings. A character
  is a code point from 0 to 255, so the model covers the text the program handles up to
  code point 255, and the character classes below (\<open>isspace\<close>, \<open>lower_char\<close>) are
  Python's on that whole range.

  An exception is a value of \<open>exn\<close>, and a computation that talks to the outside world
  (the network, the terminal) takes the world and returns either the exception it
  raised or its result, with the world it left behind.
\<close>

datatype exn =
    KeyboardInterrupt
  | LookupError string
  | AttributeError string
  | IndexError
  | LibraryError string

type_synonym ('w, 'a) io = "'w \<Rightarrow> (exn + 'a) \<times> 'w"

definition io_return :: "'a \<Rightarrow> ('w, 'a) io" where
  "io_return x = (\<lambda>w. (Inr x, w))"

definition io_raise :: "exn \<Rightarrow> ('w, 'a) io" where
  "io_raise e = (\<lambda>w. (Inl e, w))"

definition io_lift :: "exn + 'a \<Rightarrow> ('w, 'a) io" where
  "io_lift r = (\<lambda>w. (r, w))"

definition io_bind :: "('w, 'a) io \<Rightarrow> ('a \<Rightarrow> ('w, 'b) io) \<Rightarrow> ('w, 'b) io" where
  "io_bind m f = (\<lambda>w. case m w of (Inl e, w') \<Rightarrow> (Inl e, w') | (Inr x, w') \<Rightarrow> f x w')"

section \<open>String operations of the Python library\<close>

text \<open>\<^verbatim>\<open>" ".join(xs)\<close>\<close>

fun space_join :: "string list \<Rightarrow> string" where
  "space_join [] = []"
| "space_join [x] = x"
| "space_join (x # y # ys) = x @ '' '' @ space_join (y # ys)"

text \<open>
  \<^verbatim>\<open>str.isspace\<close> on the code points below 256, which is what \<^verbatim>\<open>str.split()\<close> splits
  on: tab, line feed, vertical tab, form feed, carriage return, the four separators
  \<open>0x1C\<close> to \<open>0x1F\<close>, the space, the next-line control \<open>0x85\<close> and the no-break space
  \<open>0xA0\<close>.
\<close>

definition isspace :: "char \<Rightarrow> bool" where
  "isspace c \<longleftrightarrow>
     c \<in> set [CHR 0x09, CHR 0x0A, CHR 0x0B, CHR 0x0C, CHR 0x0D,
              CHR 0x1C, CHR 0x1D, CHR 0x1E, CHR 0x1F, CHR '' '', CHR 0x85, CHR 0xA0]"

text \<open>
  \<^verbatim>\<open>s.split()\<close> with no argument: the maximal runs of non-whitespace characters, in
  order; never an empty token. \<open>cur\<close> is the token being read.
\<close>

fun split_from :: "string \<Rightarrow> string \<Rightarrow> string list" where
  "split_from cur [] = (if cur = [] then [] else [cur])"
| "split_from cur (c # cs) =
     (if isspace c then (if cur = [] then split_from [] cs else cur # split_from [] cs)
      else split_from (cur @ [c]) cs)"

definition split :: "string \<Rightarrow> string list" where
  "split s = split_from [] s"

text \<open>
  \<^verbatim>\<open>s.lower()\<close> on the code points below 256: \<open>A\<close> to \<open>Z\<close> become \<open>a\<close> to \<open>z\<close>, and
  the capital letters \<open>0xC0\<close> to \<open>0xDE\<close> of Latin-1 (all of that range but the
  multiplication sign \<open>0xD7\<close>) become the small letters \<open>0xE0\<close> to \<open>0xFE\<close>; every
  other character stays. \<open>upper_chars\<close> lists the capitals and \<open>lower_chars\<close> the
  small letter of each, in the same order.
\<close>

definition upper_chars :: string where
  "upper_chars =
     ''ABCDEFGHIJKLMNOPQRSTUVWXYZ'' @
     [CHR 0xC0, CHR 0xC1, CHR 0xC2, CHR 0xC3, CHR 0xC4, CHR 0xC5, CHR 0xC6, CHR 0xC7,
      CHR 0xC8, CHR 0xC9, CHR 0xCA, CHR 0xCB, CHR 0xCC, CHR 0xCD, CHR 0xCE, CHR 0xCF,
      CHR 0xD0, CHR 0xD1, CHR 0xD2, CHR 0xD3, CHR 0xD4, CHR 0xD5, CHR 0xD6, CHR 0xD8,
      CHR 0xD9, CHR 0xDA, CHR 0xDB, CHR 0xDC, CHR 0xDD, CHR 0xDE]"

definition lower_chars :: string where
  "lower_chars =
     ''abcdefghijklmnopqrstuvwxyz'' @
     [CHR 0xE0, CHR 0xE1, CHR 0xE2, CHR 0xE3, CHR 0xE4, CHR 0xE5, CHR 0xE6, CHR 0xE7,
      CHR 0xE8, CHR 0xE9, CHR 0xEA, CHR 0xEB, CHR 0xEC, CHR 0xED, CHR 0xEE, CHR 0xEF,
      CHR 0xF0, CHR 0xF1, CHR 0xF2, CHR 0xF3, CHR 0xF4, CHR 0xF5, CHR 0xF6, CHR 0xF8,
      CHR 0xF9, CHR 0xFA, CHR 0xFB, CHR 0xFC, CHR 0xFD, CHR 0xFE]"

definition lower_char :: "char \<Rightarrow> char" where
  "lower_char c =
     (case map_of (zip upper_chars lower_chars) c of
        None \<Rightarrow> c
      | Some l \<Rightarrow> l)"

definition lower :: "string \<Rightarrow> string" where
  "lower s = map lower_char s"

text \<open>\<^verbatim>\<open>s.replace(old, "")\<close> for a one-character \<open>old\<close>: every occurrence goes.\<close>

definition replace_with_empty :: "char \<Rightarrow> string \<Rightarrow> string" where
  "replace_with_empty old s = filter (\<lambda>c. c \<noteq> old) s"

text \<open>
  \<^verbatim>\<open>string.printable\<close>: digits, letters, punctuation and whitespace, in the library's
  order.
\<close>

definition printable :: string where
  \<open>printable =
     ''0123456789'' @
     ''abcdefghijklmnopqrstuvwxyz'' @
     ''ABCDEFGHIJKLMNOPQRSTUVWXYZ'' @
     [CHR 0x21, CHR 0x22] @ ''#$%&'' @ [CHR 0x27] @ ''()*+,-./:;<=>?@['' @ [CHR 0x5C] @
     '']^_'' @ [CHR 0x60] @ ''{|}~'' @
     [CHR '' '', CHR 0x09, CHR 0x0A, CHR 0x0D, CHR 0x0B, CHR 0x0C]\<close>

text \<open>
  \<^verbatim>\<open>re.sub("c+", "c", s)\<close> for a character \<open>c\<close>: every maximal run of \<open>c\<close> is replaced by
  one \<open>c\<close>.
\<close>

fun sub_runs :: "char \<Rightarrow> string \<Rightarrow> string" where
  "sub_runs c [] = []"
| "sub_runs c [x] = [x]"
| "sub_runs c (x # y # ys) =
     (if x = c \<and> y = c then sub_runs c (y # ys) else x # sub_runs c (y # ys))"

section \<open>The lookup layer\<close>

text \<open>
  The libraries the module calls are parameters: \<open>wikipedia_search\<close> is
  \<^verbatim>\<open>wikipedia.search\<close>, \<open>page_html\<close> is \<^verbatim>\<open>WikipediaPage(title).html()\<close>,
  \<open>find_all_infobox\<close> gives the \<^verbatim>\<open>.text\<close> of each element that
  \<^verbatim>\<open>soup.find_all(class_="infobox")\<close> finds, \<open>re_search\<close> is
  \<^verbatim>\<open>re.compile(pattern, re.DOTALL | re.IGNORECASE).search(text)\<close>, returning the named
  groups of the match, and \<open>re_escape\<close> is \<^verbatim>\<open>re.escape\<close>.
\<close>

record 'w extern =
  wikipedia_search :: "string \<Rightarrow> ('w, string list) io"
  page_html :: "string \<Rightarrow> ('w, string) io"
  find_all_infobox :: "string \<Rightarrow> string list"
  re_search :: "string \<Rightarrow> string \<Rightarrow> (string \<Rightarrow> string) option"
  re_escape :: "string \<Rightarrow> string"

definition get_page_html :: "'w extern \<Rightarrow> string \<Rightarrow> ('w, string) io" where
  "get_page_html E title =
     io_bind (wikipedia_search E title)
       (\<lambda>results. case results of [] \<Rightarrow> io_raise IndexError | r # _ \<Rightarrow> page_html E r)"

definition get_first_infobox_text :: "'w extern \<Rightarrow> string \<Rightarrow> exn + string" where
  "get_first_infobox_text E html =
     (case find_all_infobox E html of
        [] \<Rightarrow> Inl (LookupError ''Page has no infobox'')
      | r # _ \<Rightarrow> Inr r)"

definition clean_text :: "string \<Rightarrow> string" where
  "clean_text text =
     (let only_ascii = map (\<lambda>char. if char \<in> set printable then char else CHR '' '') text;
          no_dup_spaces = sub_runs (CHR '' '') only_ascii;
          no_dup_newlines = sub_runs (CHR 0x0A) no_dup_spaces
      in no_dup_newlines)"

definition get_match ::
  "'w extern \<Rightarrow> string \<Rightarrow> string \<Rightarrow> string \<Rightarrow> exn + (string \<Rightarrow> string)" where
  "get_match E text pattern error_text =
     (case re_search E pattern text of
        None \<Rightarrow> Inl (AttributeError error_text)
      | Some m \<Rightarrow> Inr m)"

text \<open>The backslash of the regular expressions below.\<close>

definition bs :: string where
  "bs = [CHR 0x5C]"

text \<open>
  The five field lookups share one shape: fetch the page, take the first infobox, clean
  its text, search it, return one named group.
\<close>

definition infobox_field ::
  "'w extern \<Rightarrow> string \<Rightarrow> string \<Rightarrow> string \<Rightarrow> string \<Rightarrow> ('w, string) io" where
  "infobox_field E title pattern error_text group_name =
     io_bind (get_page_html E title) (\<lambda>html.
     io_bind (io_lift (get_first_infobox_text E html)) (\<lambda>box.
     io_bind (io_lift (get_match E (clean_text box) pattern error_text)) (\<lambda>m.
     io_return (m group_name))))"

definition get_polar_radius :: "'w extern \<Rightarrow> string \<Rightarrow> ('w, string) io" where
  \<open>get_polar_radius E planet_name =
     infobox_field E planet_name
       (''(?:Polar radius.*?)(?: ?['' @ bs @ ''d]+ )?(?P<radius>['' @ bs @
          ''d,.]+)(?:.*?)km'')
       ''Page infobox has no polar radius information''
       ''radius''\<close>

definition get_birth_date :: "'w extern \<Rightarrow> string \<Rightarrow> ('w, string) io" where
  \<open>get_birth_date E name =
     infobox_field E name
       (''(?:Born'' @ bs @ ''D*)(?P<birth>'' @ bs @ ''d{4}-'' @ bs @ ''d{2}-'' @ bs @
          ''d{2})'')
       ''Page infobox has no birth information (at least none in xxxx-xx-xx format)''
       ''birth''\<close>

definition get_address :: "'w extern \<Rightarrow> string \<Rightarrow> ('w, string) io" where
  \<open>get_address E school_name =
     infobox_field E school_name
       (''(?:Address'' @ bs @ ''s*:?'' @ bs @ ''s*)(?P<address>['' @ bs @ ''d'' @ bs @ ''w'' @
          bs @ ''s'' @ bs @ ''.,]+?)(?='' @ bs @ ''s*(?:Street|Coordinates)|$)'')
       ''Page infobox has no address information''
       ''address''\<close>

definition get_elevation :: "'w extern \<Rightarrow> string \<Rightarrow> ('w, string) io" where
  \<open>get_elevation E airport_name =
     infobox_field E airport_name
       (''(?:Elevation AMSL.*?)(?P<elevation>['' @ bs @ ''d,.]+)(?:.*?)ft'')
       ''Page infobox has no elevation information''
       ''elevation''\<close>

definition get_runway_length :: "'w extern \<Rightarrow> string \<Rightarrow> string \<Rightarrow> ('w, string) io" where
  \<open>get_runway_length E airport_name runway_name =
     infobox_field E airport_name
       (''(?i)'' @ re_escape E runway_name @ bs @ ''n(?P<length>[^'' @ bs @ ''n]*)'')
       ''Page infobox has no runway length information''
       ''length''\<close>

section \<open>Actions\<close>

type_synonym 'w action = "string list \<Rightarrow> ('w, string list) io"

definition birth_date :: "'w extern \<Rightarrow> 'w action" where
  "birth_date E matches =
     io_bind (get_birth_date E (space_join matches)) (\<lambda>r. io_return [r])"

definition polar_radius :: "'w extern \<Rightarrow> 'w action" where
  "polar_radius E matches =
     (case matches of
        [] \<Rightarrow> io_raise IndexError
      | m0 # _ \<Rightarrow> io_bind (get_polar_radius E m0) (\<lambda>r. io_return [r]))"

definition address :: "'w extern \<Rightarrow> 'w action" where
  "address E matches =
     io_bind (get_address E (space_join matches)) (\<lambda>r. io_return [r])"

definition elevation :: "'w extern \<Rightarrow> 'w action" where
  "elevation E matches =
     io_bind (get_elevation E (space_join matches)) (\<lambda>r. io_return [r @ '' ft''])"

definition runway_length :: "'w extern \<Rightarrow> 'w action" where
  "runway_length E matches =
     (case matches of
        m0 # m1 # _ \<Rightarrow> io_bind (get_runway_length E m1 m0) (\<lambda>r. io_return [r @ '' ft''])
      | _ \<Rightarrow> io_raise IndexError)"

definition bye_action :: "'w action" where
  "bye_action dummy = io_raise KeyboardInterrupt"

section \<open>The matcher\<close>

text \<open>
  Modelled from the spec: \<^verbatim>\<open>match\<close> is imported from the module \<^verbatim>\<open>match.py\<close>, which is
  not among the sources. It is written here from the specification's section 4.1: the
  pattern is read left to right; \<open>%\<close> (MULTI) takes zero or more tokens, trying the
  shortest consumption first and moving on when the rest of the pattern fails on the rest
  of the input, and contributes the space-joined tokens it took; \<open>_\<close> (SINGLE) takes
  exactly one token and contributes it; a literal takes one identical token; the empty
  pattern matches the empty input only. \<open>None\<close> is \<^verbatim>\<open>NO_MATCH\<close>. In \<open>multi_scan\<close>,
  \<open>taken\<close> is what the wildcard has consumed so far.
\<close>

fun match :: "string list \<Rightarrow> string list \<Rightarrow> string list option"
  and multi_scan :: "string list \<Rightarrow> string list \<Rightarrow> string list \<Rightarrow> string list option"
where
  "match [] [] = Some []"
| "match [] (s # ss) = None"
| "match (p # ps) src =
    (if p = ''%'' then multi_scan ps [] src
     else case src of
         [] \<Rightarrow> None
       | s # ss \<Rightarrow>
           if p = ''_'' then map_option (Cons s) (match ps ss)
           else if s = p then match ps ss else None)"
| "multi_scan ps taken rest =
    (case match ps rest of
       Some caps \<Rightarrow> Some (space_join taken # caps)
     | None \<Rightarrow>
        (case rest of
           [] \<Rightarrow> None
         | s # ss \<Rightarrow> multi_scan ps (taken @ [s]) ss))"

declare multi_scan.simps [simp del]

section \<open>The dispatcher\<close>

type_synonym 'w pa_table = "(string list \<times> 'w action) list"

definition pa_list :: "'w extern \<Rightarrow> 'w pa_table" where
  "pa_list E =
     [(split ''when was % born'', birth_date E),
      (split ''what is the polar radius of %'', polar_radius E),
      (split ''what is the address of %'', address E),
      (split ''what is the elevation of %'', elevation E),
      (split ''what is the length of runway _ at %'', runway_length E),
      ([''bye''], bye_action)]"

text \<open>
  \<^verbatim>\<open>search_pa_list\<close> reads the module's table; here the table is its first argument.
  The loop leaves at the first pattern that matches. Nothing in it catches an exception.
  An action returns a list, which is false in Python exactly when it is empty.
\<close>

fun search_pa_list :: "'w pa_table \<Rightarrow> string list \<Rightarrow> ('w, string list) io" where
  "search_pa_list [] src w = (Inr [''I don't understand''], w)"
| "search_pa_list ((pat, act) # rest) src w =
     (case match pat src of
        None \<Rightarrow> search_pa_list rest src w
      | Some mat \<Rightarrow>
         (case act mat w of
            (Inl e, w') \<Rightarrow> (Inl e, w')
          | (Inr answer, w') \<Rightarrow>
              (Inr (if answer \<noteq> [] then answer else [''No answers'']), w')))"

section \<open>The query loop's tokenizer\<close>

text \<open>
  \<^verbatim>\<open>input("Your query? ").replace("?", "").lower().split()\<close>, applied to the line read.
\<close>

definition query_tokens :: "string \<Rightarrow> string list" where
  "query_tokens line = split (lower (replace_with_empty (CHR ''?'') line))"

text \<open>
  The tokenizer as the specification words it, for comparison: lower case, one trailing
  query mark stripped, split on whitespace.
\<close>

definition strip_trailing_qmark :: "string \<Rightarrow> string" where
  "strip_trailing_qmark s = (if s \<noteq> [] \<and> last s = CHR ''?'' then butlast s else s)"

definition spec_query_tokens :: "string \<Rightarrow> string list" where
  "spec_query_tokens line = split (strip_trailing_qmark (lower line))"

section \<open>Properties of the matcher\<close>

lemma match_literals_only:
  "''%'' \<notin> set P \<Longrightarrow> ''_'' \<notin> set P \<Longrightarrow> match P I = (if P = I then Some [] else None)"
proof (induction P arbitrary: I)
  case Nil
  then show ?case by (cases I) simp_all
next
  case (Cons p ps)
  then show ?case by (cases I) auto
qed

lemma multi_scan_empty_pattern:
  "multi_scan [] taken rest = Some [space_join (taken @ rest)]"
proof (induction rest arbitrary: taken)
  case Nil
  show ?case by (simp add: multi_scan.simps)
next
  case (Cons s ss)
  have "multi_scan [] taken (s # ss) = multi_scan [] (taken @ [s]) ss"
    by (simp add: multi_scan.simps [of _ _ "s # ss"])
  then show ?case using Cons [of "taken @ [s]"] by simp
qed

text \<open>
  What the scan of a MULTI wildcard returns: the first split, counting the tokens taken
  from zero upward, at which the rest of the pattern matches the rest of the input.
\<close>

lemma multi_scan_Some_iff:
  "multi_scan ps taken rest = Some r \<longleftrightarrow>
     (\<exists>k caps. k \<le> length rest \<and> match ps (drop k rest) = Some caps \<and>
        (\<forall>j<k. match ps (drop j rest) = None) \<and>
        r = space_join (taken @ take k rest) # caps)"
proof (induction rest arbitrary: taken)
  case Nil
  show ?case by (auto simp: multi_scan.simps [of _ _ "[]"] split: option.splits)
next
  case (Cons s ss)
  let ?R = "\<lambda>tk xs. \<exists>k caps. k \<le> length xs \<and> match ps (drop k xs) = Some caps \<and>
        (\<forall>j<k. match ps (drop j xs) = None) \<and> r = space_join (tk @ take k xs) # caps"
  show ?case
  proof (cases "match ps (s # ss)")
    case (Some caps)
    then have L: "multi_scan ps taken (s # ss) = Some (space_join taken # caps)"
      by (simp add: multi_scan.simps [of _ _ "s # ss"])
    show ?thesis
    proof
      assume "multi_scan ps taken (s # ss) = Some r"
      with L have "r = space_join taken # caps" by simp
      with Some show "?R taken (s # ss)"
        by (intro exI [of _ 0] exI [of _ caps]) simp
    next
      assume "?R taken (s # ss)"
      then obtain k caps' where k: "match ps (drop k (s # ss)) = Some caps'"
        "\<forall>j<k. match ps (drop j (s # ss)) = None"
        "r = space_join (taken @ take k (s # ss)) # caps'" by blast
      have "k = 0"
      proof (rule ccontr)
        assume "k \<noteq> 0"
        then have "match ps (drop 0 (s # ss)) = None" using k(2) by blast
        with Some show False by simp
      qed
      with k Some L show "multi_scan ps taken (s # ss) = Some r" by simp
    qed
  next
    case None
    then have L: "multi_scan ps taken (s # ss) = multi_scan ps (taken @ [s]) ss"
      by (simp add: multi_scan.simps [of _ _ "s # ss"])
    show ?thesis
    proof
      assume "multi_scan ps taken (s # ss) = Some r"
      with L Cons [of "taken @ [s]"] obtain k caps where k: "k \<le> length ss"
        "match ps (drop k ss) = Some caps" "\<forall>j<k. match ps (drop j ss) = None"
        "r = space_join ((taken @ [s]) @ take k ss) # caps" by auto
      have "\<forall>j<Suc k. match ps (drop j (s # ss)) = None"
      proof (intro allI impI)
        fix j assume "j < Suc k"
        then show "match ps (drop j (s # ss)) = None"
          using None k(3) by (cases j) simp_all
      qed
      with k show "?R taken (s # ss)"
        by (intro exI [of _ "Suc k"] exI [of _ caps]) simp
    next
      assume "?R taken (s # ss)"
      then obtain k caps where k: "k \<le> length (s # ss)"
        "match ps (drop k (s # ss)) = Some caps"
        "\<forall>j<k. match ps (drop j (s # ss)) = None"
        "r = space_join (taken @ take k (s # ss)) # caps" by blast
      from None k(2) have "k \<noteq> 0" by (cases k) auto
      then obtain k' where k': "k = Suc k'" by (cases k) auto
      have "\<forall>j<k'. match ps (drop j ss) = None"
      proof (intro allI impI)
        fix j assume "j < k'"
        then have "match ps (drop (Suc j) (s # ss)) = None" using k(3) k' by blast
        then show "match ps (drop j ss) = None" by simp
      qed
      with k k' have "?R (taken @ [s]) ss"
        by (intro exI [of _ k'] exI [of _ caps]) simp
      with L Cons [of "taken @ [s]"] show "multi_scan ps taken (s # ss) = Some r" by simp
    qed
  qed
qed

lemma match_literal_head:
  "p \<noteq> ''%'' \<Longrightarrow> p \<noteq> ''_'' \<Longrightarrow>
   match (p # ps) src =
     (case src of [] \<Rightarrow> None | s # ss \<Rightarrow> if s = p then match ps ss else None)"
  by (cases src) simp_all

text \<open>
  Claim C2. For every input \<open>I\<close>, matching the one-element pattern \<open>[%]\<close> succeeds with
  exactly one capture, the space-joined tokens of \<open>I\<close> (the empty string when \<open>I\<close> is
  empty). When elements follow a \<open>%\<close>, the match succeeds exactly when some split lets
  the rest of the pattern match the rest of the input, and it returns the split with the
  fewest tokens taken: every shorter consumption fails.
\<close>

theorem match_multi_first_split:
  "match [''%''] I = Some [space_join I] \<and>
   match [''%''] [] = Some [''''] \<and>
   (match (''%'' # ps) src = Some r \<longleftrightarrow>
     (\<exists>k caps. k \<le> length src \<and> match ps (drop k src) = Some caps \<and>
        (\<forall>j<k. match ps (drop j src) = None) \<and>
        r = space_join (take k src) # caps))"
  using multi_scan_Some_iff [of ps "[]" src r]
  by (simp add: multi_scan_empty_pattern)

theorem match_multi_first_split_witness:
  "match [''born''] (drop 0 [''ada'', ''lovelace'', ''born'']) = None \<and>
   match [''born''] (drop 1 [''ada'', ''lovelace'', ''born'']) = None \<and>
   match [''born''] (drop 2 [''ada'', ''lovelace'', ''born'']) = Some [] \<and>
   match [''%'', ''born''] [''ada'', ''lovelace'', ''born''] = Some [''ada lovelace'']"
proof -
  let ?src = "[''ada'', ''lovelace'', ''born'']"
  have d0: "match [''born''] (drop 0 ?src) = None" by simp
  have d1: "match [''born''] (drop 1 ?src) = None" by simp
  have d2: "match [''born''] (drop 2 ?src) = Some []" by (simp add: numeral_2_eq_2)
  have less: "\<forall>j<2. match [''born''] (drop j ?src) = None"
  proof (intro allI impI)
    fix j :: nat assume "j < 2"
    then have "j = 0 \<or> j = 1" by arith
    with d0 d1 show "match [''born''] (drop j ?src) = None" by auto
  qed
  have "\<exists>k caps. k \<le> length ?src \<and> match [''born''] (drop k ?src) = Some caps \<and>
        (\<forall>j<k. match [''born''] (drop j ?src) = None) \<and>
        [''ada lovelace''] = space_join (take k ?src) # caps"
    using d2 less by (intro exI [of _ 2] exI [of _ "[]"]) (simp add: numeral_2_eq_2)
  then have "match [''%'', ''born''] ?src = Some [''ada lovelace'']"
    using match_multi_first_split [of "[]" "[''born'']" ?src "[''ada lovelace'']"] by blast
  with d0 d1 d2 show ?thesis by blast
qed

text \<open>
  Claim C3. For a pattern \<open>P\<close> with no wildcard marker and every input \<open>I\<close>, the match
  succeeds if and only if \<open>P\<close> and \<open>I\<close> are the same token sequence, and a successful
  match captures nothing.
\<close>

theorem match_without_wildcards:
  assumes "\<forall>p \<in> set P. p \<noteq> ''%'' \<and> p \<noteq> ''_''"
  shows "((\<exists>caps. match P I = Some caps) \<longleftrightarrow> P = I) \<and>
         (\<forall>caps. match P I = Some caps \<longrightarrow> caps = [])"
proof -
  from assms have "''%'' \<notin> set P" and "''_'' \<notin> set P" by auto
  then have "match P I = (if P = I then Some [] else None)"
    by (rule match_literals_only)
  then show ?thesis by simp
qed

theorem match_without_wildcards_witness:
  "match [''what'', ''is''] [''what'', ''is''] = Some [] \<and>
   match [''what'', ''is''] [''what'', ''was''] = None"
proof -
  have h: "\<forall>p \<in> set [''what'', ''is'']. p \<noteq> ''%'' \<and> p \<noteq> ''_''" by simp
  have a: "match [''what'', ''is''] [''what'', ''is''] = Some []"
    using match_without_wildcards [OF h, of "[''what'', ''is'']"] by auto
  have b: "match [''what'', ''is''] [''what'', ''was''] = None"
    using match_without_wildcards [OF h, of "[''what'', ''was'']"] by auto
  from a b show ?thesis by blast
qed

section \<open>Properties of the dispatcher\<close>

subsection \<open>Any table\<close>

lemma search_pa_list_skip:
  "\<forall>(q, b) \<in> set pre. match q src = None \<Longrightarrow>
   search_pa_list (pre @ rest) src w = search_pa_list rest src w"
  by (induction pre) auto

lemma search_pa_list_prefix:
  "(p, a) \<in> set pre \<Longrightarrow> match p src = Some m \<Longrightarrow>
   search_pa_list (pre @ post) src w = search_pa_list pre src w"
proof (induction pre)
  case Nil
  then show ?case by simp
next
  case (Cons e pre)
  obtain q b where e: "e = (q, b)" by (cases e)
  show ?case
  proof (cases "match q src")
    case None
    with Cons e have "(p, a) \<in> set pre" by auto
    with Cons None e show ?thesis by simp
  next
    case (Some caps)
    with e show ?thesis by simp
  qed
qed

subsection \<open>The module's own table\<close>

lemma pa_list_patterns:
  "split ''when was % born'' = [''when'', ''was'', ''%'', ''born'']"
  "split ''what is the polar radius of %'' =
     [''what'', ''is'', ''the'', ''polar'', ''radius'', ''of'', ''%'']"
  "split ''what is the address of %'' = [''what'', ''is'', ''the'', ''address'', ''of'', ''%'']"
  "split ''what is the elevation of %'' =
     [''what'', ''is'', ''the'', ''elevation'', ''of'', ''%'']"
  "split ''what is the length of runway _ at %'' =
     [''what'', ''is'', ''the'', ''length'', ''of'', ''runway'', ''_'', ''at'', ''%'']"
  by (simp_all add: split_def isspace_def)

lemma what_is_the:
  assumes "match (''what'' # ''is'' # ''the'' # x # ps) src = Some caps"
    and "x \<noteq> ''%''" "x \<noteq> ''_''"
  shows "\<exists>ss. src = ''what'' # ''is'' # ''the'' # x # ss"
  using assms by (auto simp: match_literal_head split: list.splits if_splits)

text \<open>
  The patterns of the table exclude one another, so an input that matches one of them is
  dispatched as if the table held that entry alone.
\<close>

lemma dispatch_birth:
  assumes "match (split ''when was % born'') src = Some caps"
  shows "search_pa_list (pa_list E) src w =
         search_pa_list [(split ''when was % born'', birth_date E)] src w"
  using assms by (simp add: pa_list_def)

lemma dispatch_polar:
  assumes "match (split ''what is the polar radius of %'') src = Some caps"
  shows "search_pa_list (pa_list E) src w =
         search_pa_list [(split ''what is the polar radius of %'', polar_radius E)] src w"
proof -
  from assms obtain ss where "src = ''what'' # ''is'' # ''the'' # ''polar'' # ss"
    unfolding pa_list_patterns using what_is_the by fastforce
  with assms show ?thesis
    by (simp add: pa_list_def pa_list_patterns)
qed

lemma dispatch_address:
  assumes "match (split ''what is the address of %'') src = Some caps"
  shows "search_pa_list (pa_list E) src w =
         search_pa_list [(split ''what is the address of %'', address E)] src w"
proof -
  from assms obtain ss where "src = ''what'' # ''is'' # ''the'' # ''address'' # ss"
    unfolding pa_list_patterns using what_is_the by fastforce
  with assms show ?thesis
    by (simp add: pa_list_def pa_list_patterns)
qed

lemma dispatch_elevation:
  assumes "match (split ''what is the elevation of %'') src = Some caps"
  shows "search_pa_list (pa_list E) src w =
         search_pa_list [(split ''what is the elevation of %'', elevation E)] src w"
proof -
  from assms obtain ss where "src = ''what'' # ''is'' # ''the'' # ''elevation'' # ss"
    unfolding pa_list_patterns using what_is_the by fastforce
  with assms show ?thesis
    by (simp add: pa_list_def pa_list_patterns)
qed

lemma dispatch_runway:
  assumes "match (split ''what is the length of runway _ at %'') src = Some caps"
  shows "search_pa_list (pa_list E) src w =
         search_pa_list
           [(split ''what is the length of runway _ at %'', runway_length E)] src w"
proof -
  from assms obtain ss where "src = ''what'' # ''is'' # ''the'' # ''length'' # ss"
    unfolding pa_list_patterns using what_is_the by fastforce
  with assms show ?thesis
    by (simp add: pa_list_def pa_list_patterns)
qed

lemma dispatch_bye:
  "search_pa_list (pa_list E) [''bye''] w = (Inl KeyboardInterrupt, w)"
  by (simp add: pa_list_def pa_list_patterns bye_action_def io_raise_def)

lemma infobox_field_no_infobox:
  assumes "get_page_html E title w = (Inr html, w')" and "find_all_infobox E html = []"
  shows "infobox_field E title pattern error_text group_name w =
         (Inl (LookupError ''Page has no infobox''), w')"
  using assms
  by (simp add: infobox_field_def io_bind_def io_lift_def get_first_infobox_text_def)

lemma infobox_field_no_match:
  assumes "get_page_html E title w = (Inr html, w')"
    and "find_all_infobox E html = box # boxes"
    and "re_search E pattern (clean_text box) = None"
  shows "infobox_field E title pattern error_text group_name w =
         (Inl (AttributeError error_text), w')"
  using assms
  by (simp add: infobox_field_def io_bind_def io_lift_def get_first_infobox_text_def
      get_match_def)

subsection \<open>Priority, answers and sentinels\<close>

text \<open>
  Claim C1. When the entry \<open>(p, a)\<close> is the first of the table whose pattern matches the
  input, the dispatcher runs \<open>a\<close> on the captures, once, and returns what it returns (an
  empty answer list replaced by the sentinel); result and world are those of a table
  holding this entry alone, whatever follows it in the table, so no later entry's action
  runs even when its pattern matches too.
\<close>

theorem search_pa_list_first_match_only:
  assumes "\<forall>(q, b) \<in> set pre. match q src = None"
    and "match p src = Some m"
  shows "search_pa_list (pre @ (p, a) # post) src w =
           (case a m w of
              (Inl e, w') \<Rightarrow> (Inl e, w')
            | (Inr answer, w') \<Rightarrow>
                (Inr (if answer \<noteq> [] then answer else [''No answers'']), w'))
         \<and> search_pa_list (pre @ (p, a) # post) src w = search_pa_list [(p, a)] src w"
  using assms by (simp add: search_pa_list_skip)

text \<open>
  An instance in which the world is the log of the actions that ran: both the second and the
  third pattern match \<open>[x]\<close>; only the second entry's action is logged.
\<close>

theorem search_pa_list_first_match_only_witness:
  "match [''bye''] [''x''] = None \<and>
   match [''%''] [''x''] = Some [''x''] \<and> match [''_''] [''x''] = Some [''x''] \<and>
   search_pa_list
     [([''bye''], \<lambda>m w. (Inr [''zeroth''], w @ [''zeroth''])),
      ([''%''], \<lambda>m w. (Inr (''first'' # m), w @ [''first''])),
      ([''_''], \<lambda>m w. (Inr (''second'' # m), w @ [''second'']))]
     [''x''] ([] :: string list) = (Inr [''first'', ''x''], [''first''])"
proof -
  let ?pre = "[([''bye''], \<lambda>m w. (Inr [''zeroth''], w @ [''zeroth'']))]
                :: string list pa_table"
  have h0: "match [''bye''] [''x''] = None" by simp
  then have h1: "\<forall>(q, b) \<in> set ?pre. match q [''x''] = None" by simp
  have h2: "match [''%''] [''x''] = Some [''x'']" by (simp add: multi_scan.simps)
  have h3: "match [''_''] [''x''] = Some [''x'']" by simp
  show ?thesis
    using h0 h2 h3 search_pa_list_first_match_only [OF h1 h2,
        of "\<lambda>m w. (Inr (''first'' # m), w @ [''first''])"
           "[([''_''], \<lambda>m w. (Inr (''second'' # m), w @ [''second'']))]" "[]"]
    by simp
qed

text \<open>
  Claim C4. When the action of the first matching entry returns a list, the dispatcher
  returns that list unchanged if it is not empty, and the one-element list
  \<open>["No answers"]\<close> if it is empty.
\<close>

theorem search_pa_list_answer_list:
  assumes "\<forall>(q, b) \<in> set pre. match q src = None"
    and "match p src = Some m"
    and "a m w = (Inr answer, w')"
  shows "(answer \<noteq> [] \<longrightarrow> search_pa_list (pre @ (p, a) # post) src w = (Inr answer, w')) \<and>
         (answer = [] \<longrightarrow>
            search_pa_list (pre @ (p, a) # post) src w = (Inr [''No answers''], w'))"
  using assms by (simp add: search_pa_list_skip)

theorem search_pa_list_answer_list_witness:
  "search_pa_list
     [([''bye''], bye_action), ([''_''], io_return), ([''%''], \<lambda>m. io_return [])]
     [''x''] () = (Inr [''x''], ()) \<and>
   search_pa_list
     [([''bye''], bye_action), ([''%''], \<lambda>m. io_return []), ([''_''], io_return)]
     [''x''] () = (Inr [''No answers''], ())"
proof -
  let ?pre = "[([''bye''], bye_action)] :: unit pa_table"
  have h1: "\<forall>(q, b) \<in> set ?pre. match q [''x''] = None" by simp
  have h2: "match [''_''] [''x''] = Some [''x'']" by simp
  have h3: "match [''%''] [''x''] = Some [''x'']" by (simp add: multi_scan.simps)
  have a1: "io_return [''x''] () = (Inr [''x''], ())"
    by (simp add: io_return_def)
  have a2: "(\<lambda>m. io_return []) [''x''] () = (Inr ([] :: string list), ())"
    by (simp add: io_return_def)
  have r1: "search_pa_list (?pre @ ([''_''], io_return) # [([''%''], \<lambda>m. io_return [])])
              [''x''] () = (Inr [''x''], ())"
    using search_pa_list_answer_list [where pre = ?pre and src = "[''x'']" and p = "[''_'']"
        and m = "[''x'']" and a = io_return and w = "()" and answer = "[''x'']"
        and w' = "()" and post = "[([''%''], \<lambda>m. io_return [])]"] h1 h2 a1
    by simp
  have r2: "search_pa_list (?pre @ ([''%''], \<lambda>m. io_return []) # [([''_''], io_return)])
              [''x''] () = (Inr [''No answers''], ())"
    using search_pa_list_answer_list [where pre = ?pre and src = "[''x'']" and p = "[''%'']"
        and m = "[''x'']" and a = "\<lambda>m. io_return []" and w = "()" and answer = "[]"
        and w' = "()" and post = "[([''_''], io_return)]"] h1 h3 a2
    by simp
  from r1 r2 show ?thesis by simp
qed

text \<open>
  Claim C5. When no pattern of the table matches the input, the dispatcher returns the
  one-element list \<open>["I don't understand"]\<close> as an ordinary result: no exception, and no
  action has run (the world is unchanged).
\<close>

theorem search_pa_list_no_match:
  assumes "\<forall>(p, a) \<in> set tbl. match p src = None"
  shows "search_pa_list tbl src w = (Inr [''I don't understand''], w)"
  using assms by (induction tbl) auto

theorem search_pa_list_no_match_witness:
  "search_pa_list
     (pa_list \<lparr>wikipedia_search = \<lambda>t. io_return [t], page_html = \<lambda>t. io_return ''<p/>'',
        find_all_infobox = \<lambda>h. [], re_search = \<lambda>p t. None, re_escape = \<lambda>s. s\<rparr>)
     [''asdf'', ''qwer''] () = (Inr [''I don't understand''], ())"
proof -
  let ?E = "\<lparr>wikipedia_search = \<lambda>t. io_return [t], page_html = \<lambda>t. io_return ''<p/>'',
        find_all_infobox = \<lambda>h. [], re_search = \<lambda>p t. None, re_escape = \<lambda>s. s\<rparr>
        :: unit extern"
  have h: "\<forall>(p, a) \<in> set (pa_list ?E). match p [''asdf'', ''qwer''] = None"
    by (simp add: pa_list_def pa_list_patterns)
  show ?thesis
    using search_pa_list_no_match [OF h, of "()"] by simp
qed

subsection \<open>Exceptions and termination\<close>

text \<open>
  Claim C6. When the action of the first matching entry raises an exception (the lookup
  failures among them: \<open>IndexError\<close> or a library error when no page is found for the
  topic, \<open>AttributeError\<close> from \<open>get_match\<close> when the field is not in the infobox), the
  dispatcher raises the same exception; it does not turn it into \<open>["No answers"]\<close>.
\<close>

theorem search_pa_list_propagates:
  assumes "\<forall>(q, b) \<in> set pre. match q src = None"
    and "match p src = Some m"
    and "a m w = (Inl e, w')"
  shows "search_pa_list (pre @ (p, a) # post) src w = (Inl e, w') \<and>
         search_pa_list (pre @ (p, a) # post) src w \<noteq> (Inr [''No answers''], w')"
  using assms by (simp add: search_pa_list_skip)

text \<open>
  In the module's own table: the page is found and has an infobox, the regular
  expression for the polar radius finds nothing in it, and the \<open>AttributeError\<close> of
  \<open>get_match\<close> comes out of the dispatcher.
\<close>

theorem search_pa_list_propagates_witness:
  "search_pa_list
     (pa_list \<lparr>wikipedia_search = \<lambda>t. io_return [t], page_html = \<lambda>t. io_return ''<p/>'',
        find_all_infobox = \<lambda>h. [''Mars''], re_search = \<lambda>p t. None, re_escape = \<lambda>s. s\<rparr>)
     [''what'', ''is'', ''the'', ''polar'', ''radius'', ''of'', ''mars''] () =
   (Inl (AttributeError ''Page infobox has no polar radius information''), ())"
proof -
  let ?E = "\<lparr>wikipedia_search = \<lambda>t. io_return [t], page_html = \<lambda>t. io_return ''<p/>'',
        find_all_infobox = \<lambda>h. [''Mars''], re_search = \<lambda>p t. None, re_escape = \<lambda>s. s\<rparr>
        :: unit extern"
  let ?src = "[''what'', ''is'', ''the'', ''polar'', ''radius'', ''of'', ''mars'']"
  let ?pre = "[(split ''when was % born'', birth_date ?E)]"
  let ?post = "[(split ''what is the address of %'', address ?E),
      (split ''what is the elevation of %'', elevation ?E),
      (split ''what is the length of runway _ at %'', runway_length ?E),
      ([''bye''], bye_action)]"
  have h1: "\<forall>(q, b) \<in> set ?pre. match q ?src = None"
    by (simp add: pa_list_patterns)
  have h2: "match (split ''what is the polar radius of %'') ?src = Some [''mars'']"
    by (simp add: pa_list_patterns multi_scan.simps)
  have page: "get_page_html ?E ''mars'' () = (Inr ''<p/>'', ())"
    by (simp add: get_page_html_def io_bind_def io_return_def)
  have h3: "polar_radius ?E [''mars''] () =
      (Inl (AttributeError ''Page infobox has no polar radius information''), ())"
    using infobox_field_no_match [OF page, of "''Mars''" "[]"]
    by (simp add: polar_radius_def get_polar_radius_def io_bind_def)
  have tbl: "pa_list ?E =
      ?pre @ (split ''what is the polar radius of %'', polar_radius ?E) # ?post"
    by (simp add: pa_list_def)
  show ?thesis
    using search_pa_list_propagates [where pre = ?pre and src = ?src
        and p = "split ''what is the polar radius of %''" and m = "[''mars'']"
        and a = "polar_radius ?E" and w = "()" and w' = "()" and post = ?post
        and e = "AttributeError ''Page infobox has no polar radius information''"]
      h1 h2 h3
    by (simp only: tbl)
qed

text \<open>
  Claim C7. The action of the termination entry raises \<open>KeyboardInterrupt\<close> whatever its
  argument, and the entry \<open>(["bye"], bye_action)\<close> is the last of the module's table. On
  every input that its pattern matches, the module's table makes the dispatcher raise
  \<open>KeyboardInterrupt\<close> and return no answer list. The entry is tried in its place,
  after all others. In any table that ends with it: when no earlier pattern matches an
  input that \<open>bye\<close> matches, the dispatcher raises \<open>KeyboardInterrupt\<close> and leaves the
  world as it was; when an earlier entry \<open>(p, a)\<close> is the first whose pattern matches,
  the outcome is that of \<open>a\<close> on its captures (an answer list, the sentinel for an empty
  one, or the exception \<open>a\<close> raised, with the world \<open>a\<close> left), also when \<open>bye\<close> matches
  the input too.
\<close>

theorem bye_action_in_table_order:
  "bye_action dummy w = (Inl KeyboardInterrupt, w) \<and>
   last (pa_list E) = ([''bye''], bye_action) \<and>
   (\<forall>src. (\<exists>caps. match [''bye''] src = Some caps) \<longrightarrow>
      search_pa_list (pa_list E) src w = (Inl KeyboardInterrupt, w)) \<and>
   (\<forall>pre src caps.
      (\<forall>(q, b) \<in> set pre. match q src = None) \<and> match [''bye''] src = Some caps \<longrightarrow>
      search_pa_list (pre @ [([''bye''], bye_action)]) src w = (Inl KeyboardInterrupt, w)) \<and>
   (\<forall>pre p a post src m.
      (\<forall>(q, b) \<in> set pre. match q src = None) \<and> match p src = Some m \<longrightarrow>
      search_pa_list (pre @ (p, a) # post @ [([''bye''], bye_action)]) src w =
        (case a m w of
           (Inl e, w') \<Rightarrow> (Inl e, w')
         | (Inr answer, w') \<Rightarrow>
             (Inr (if answer \<noteq> [] then answer else [''No answers'']), w')))"
proof (intro conjI allI impI)
  show "bye_action dummy w = (Inl KeyboardInterrupt, w)"
    by (simp add: bye_action_def io_raise_def)
  show "last (pa_list E) = ([''bye''], bye_action)"
    by (simp add: pa_list_def)
next
  fix src
  assume "\<exists>caps. match [''bye''] src = Some caps"
  then have "src = [''bye'']"
    using match_literals_only [of "[''bye'']" src] by (auto split: if_splits)
  then show "search_pa_list (pa_list E) src w = (Inl KeyboardInterrupt, w)"
    by (simp only: dispatch_bye)
next
  fix pre :: "'a pa_table" and src caps
  assume "(\<forall>(q, b) \<in> set pre. match q src = None) \<and> match [''bye''] src = Some caps"
  then have none: "\<forall>(q, b) \<in> set pre. match q src = None"
    and bye: "match [''bye''] src = Some caps" by simp_all
  have "search_pa_list (pre @ [([''bye''], bye_action)]) src w =
      search_pa_list [([''bye''], bye_action)] src w"
    using none by (rule search_pa_list_skip)
  also have "\<dots> = (Inl KeyboardInterrupt, w)"
    using bye by (simp add: bye_action_def io_raise_def)
  finally show "search_pa_list (pre @ [([''bye''], bye_action)]) src w =
      (Inl KeyboardInterrupt, w)" .
next
  fix pre post :: "'a pa_table" and p a src m
  assume "(\<forall>(q, b) \<in> set pre. match q src = None) \<and> match p src = Some m"
  then have none: "\<forall>(q, b) \<in> set pre. match q src = None"
    and hit: "match p src = Some m" by simp_all
  have "search_pa_list (pre @ (p, a) # post @ [([''bye''], bye_action)]) src w =
      search_pa_list ((p, a) # post @ [([''bye''], bye_action)]) src w"
    using none by (rule search_pa_list_skip)
  also have "\<dots> =
      (case a m w of
         (Inl e, w') \<Rightarrow> (Inl e, w')
       | (Inr answer, w') \<Rightarrow>
           (Inr (if answer \<noteq> [] then answer else [''No answers'']), w'))"
    using hit by simp
  finally show "search_pa_list (pre @ (p, a) # post @ [([''bye''], bye_action)]) src w =
      (case a m w of
         (Inl e, w') \<Rightarrow> (Inl e, w')
       | (Inr answer, w') \<Rightarrow>
           (Inr (if answer \<noteq> [] then answer else [''No answers'']), w'))" .
qed

text \<open>
  Three runs on the input \<open>[bye]\<close>, the world being the log of the actions that ran: the
  module's table; a table in which only the last entry, \<open>bye\<close>, matches; and a table in
  which the second entry matches before a third one and before \<open>bye\<close>, so that the second
  entry's action alone is logged and its answer returned.
\<close>

theorem bye_action_in_table_order_witness:
  "search_pa_list
     (pa_list \<lparr>wikipedia_search = \<lambda>t. io_return [t], page_html = \<lambda>t. io_return ''<p/>'',
        find_all_infobox = \<lambda>h. [], re_search = \<lambda>p t. None, re_escape = \<lambda>s. s\<rparr>)
     [''bye''] ([] :: string list) = (Inl KeyboardInterrupt, []) \<and>
   search_pa_list
     [([''hello''], \<lambda>m w. (Inr [''hi''], w @ [''hello''])), ([''bye''], bye_action)]
     [''bye''] ([] :: string list) = (Inl KeyboardInterrupt, []) \<and>
   search_pa_list
     [([''hello''], \<lambda>m w. (Inr [''hi''], w @ [''hello''])),
      ([''_''], \<lambda>m w. (Inr (''seen'' # m), w @ [''single''])),
      ([''%''], \<lambda>m w. (Inr [], w @ [''multi''])),
      ([''bye''], bye_action)]
     [''bye''] ([] :: string list) = (Inr [''seen'', ''bye''], [''single''])"
proof -
  let ?E = "\<lparr>wikipedia_search = \<lambda>t. io_return [t], page_html = \<lambda>t. io_return ''<p/>'',
        find_all_infobox = \<lambda>h. [], re_search = \<lambda>p t. None, re_escape = \<lambda>s. s\<rparr>
        :: string list extern"
  let ?hello = "([''hello''], \<lambda>m w. (Inr [''hi''], w @ [''hello'']))
        :: string list \<times> string list action"
  let ?single = "(\<lambda>m w. (Inr (''seen'' # m), w @ [''single'']))
        :: string list action"
  let ?multi = "([''%''], \<lambda>m w. (Inr [], w @ [''multi'']))
        :: string list \<times> string list action"
  note t = bye_action_in_table_order [of "[]" "[]" ?E]
  have m1: "match [''bye''] [''bye''] = Some []" by simp
  have m2: "match [''_''] [''bye''] = Some [''bye'']" by simp
  have m3: "\<forall>(q, b) \<in> set [?hello]. match q [''bye''] = None" by simp
  have r1: "search_pa_list (pa_list ?E) [''bye''] [] = (Inl KeyboardInterrupt, [])"
    using m1 t [THEN conjunct2, THEN conjunct2, THEN conjunct1, THEN spec, of "[''bye'']"]
    by blast
  have r2: "search_pa_list ([?hello] @ [([''bye''], bye_action)]) [''bye''] [] =
      (Inl KeyboardInterrupt, [])"
    using m1 m3 t [THEN conjunct2, THEN conjunct2, THEN conjunct2, THEN conjunct1,
        THEN spec, of "[?hello]", THEN spec, of "[''bye'']", THEN spec, of "[]"]
    by blast
  have r3: "search_pa_list ([?hello] @ ([''_''], ?single) # [?multi] @ [([''bye''], bye_action)])
      [''bye''] [] = (Inr [''seen'', ''bye''], [''single''])"
    using m2 m3 t [THEN conjunct2, THEN conjunct2, THEN conjunct2, THEN conjunct2,
        THEN spec, of "[?hello]", THEN spec, of "[''_'']", THEN spec, of ?single,
        THEN spec, of "[?multi]", THEN spec, of "[''bye'']", THEN spec, of "[''bye'']"]
    by simp
  from r1 r2 r3 show ?thesis by simp
qed

text \<open>
  Claim C9. Beyond a page that is not found and a field that is not in the infobox, the
  lookup layer fails in a third way: when the page of the topic is found and has no
  element of class \<open>infobox\<close>, \<open>get_first_infobox_text\<close> raises
  \<open>LookupError("Page has no infobox")\<close>, so does each of the five field lookups, and
  the exception (which is neither the \<open>IndexError\<close> of an empty search result nor the
  \<open>AttributeError\<close> of \<open>get_match\<close>) comes out of the dispatcher for a query of each
  of the five kinds about that topic.
\<close>

theorem no_infobox_lookup_error:
  assumes "get_page_html E topic w = (Inr html, w')"
    and "find_all_infobox E html = []"
  shows "get_first_infobox_text E html = Inl (LookupError ''Page has no infobox'') \<and>
    get_birth_date E topic w = (Inl (LookupError ''Page has no infobox''), w') \<and>
    get_polar_radius E topic w = (Inl (LookupError ''Page has no infobox''), w') \<and>
    get_address E topic w = (Inl (LookupError ''Page has no infobox''), w') \<and>
    get_elevation E topic w = (Inl (LookupError ''Page has no infobox''), w') \<and>
    get_runway_length E topic runway w = (Inl (LookupError ''Page has no infobox''), w') \<and>
    LookupError ''Page has no infobox'' \<noteq> IndexError \<and>
    (\<forall>t. LookupError ''Page has no infobox'' \<noteq> AttributeError t) \<and>
    (\<forall>src. match (split ''when was % born'') src = Some [topic] \<longrightarrow>
       search_pa_list (pa_list E) src w = (Inl (LookupError ''Page has no infobox''), w')) \<and>
    (\<forall>src. match (split ''what is the polar radius of %'') src = Some [topic] \<longrightarrow>
       search_pa_list (pa_list E) src w = (Inl (LookupError ''Page has no infobox''), w')) \<and>
    (\<forall>src. match (split ''what is the address of %'') src = Some [topic] \<longrightarrow>
       search_pa_list (pa_list E) src w = (Inl (LookupError ''Page has no infobox''), w')) \<and>
    (\<forall>src. match (split ''what is the elevation of %'') src = Some [topic] \<longrightarrow>
       search_pa_list (pa_list E) src w = (Inl (LookupError ''Page has no infobox''), w')) \<and>
    (\<forall>src. match (split ''what is the length of runway _ at %'') src = Some [runway, topic] \<longrightarrow>
       search_pa_list (pa_list E) src w = (Inl (LookupError ''Page has no infobox''), w'))"
proof -
  note field = infobox_field_no_infobox [OF assms]
  have box: "get_first_infobox_text E html = Inl (LookupError ''Page has no infobox'')"
    using assms(2) by (simp add: get_first_infobox_text_def)
  have birth: "get_birth_date E topic w = (Inl (LookupError ''Page has no infobox''), w')"
    by (simp add: get_birth_date_def field)
  have polar: "get_polar_radius E topic w = (Inl (LookupError ''Page has no infobox''), w')"
    by (simp add: get_polar_radius_def field)
  have addr: "get_address E topic w = (Inl (LookupError ''Page has no infobox''), w')"
    by (simp add: get_address_def field)
  have elev: "get_elevation E topic w = (Inl (LookupError ''Page has no infobox''), w')"
    by (simp add: get_elevation_def field)
  have runw: "get_runway_length E topic runway w =
      (Inl (LookupError ''Page has no infobox''), w')"
    by (simp add: get_runway_length_def field)
  have d1: "search_pa_list (pa_list E) src w = (Inl (LookupError ''Page has no infobox''), w')"
    if "match (split ''when was % born'') src = Some [topic]" for src
    using that birth by (simp add: dispatch_birth [OF that] birth_date_def io_bind_def)
  have d2: "search_pa_list (pa_list E) src w = (Inl (LookupError ''Page has no infobox''), w')"
    if "match (split ''what is the polar radius of %'') src = Some [topic]" for src
    using that polar by (simp add: dispatch_polar [OF that] polar_radius_def io_bind_def)
  have d3: "search_pa_list (pa_list E) src w = (Inl (LookupError ''Page has no infobox''), w')"
    if "match (split ''what is the address of %'') src = Some [topic]" for src
    using that addr by (simp add: dispatch_address [OF that] address_def io_bind_def)
  have d4: "search_pa_list (pa_list E) src w = (Inl (LookupError ''Page has no infobox''), w')"
    if "match (split ''what is the elevation of %'') src = Some [topic]" for src
    using that elev by (simp add: dispatch_elevation [OF that] elevation_def io_bind_def)
  have d5: "search_pa_list (pa_list E) src w = (Inl (LookupError ''Page has no infobox''), w')"
    if "match (split ''what is the length of runway _ at %'') src = Some [runway, topic]"
    for src
    using that runw by (simp add: dispatch_runway [OF that] runway_length_def io_bind_def)
  from box birth polar addr elev runw d1 d2 d3 d4 d5 show ?thesis by simp
qed

theorem no_infobox_lookup_error_witness:
  "search_pa_list
     (pa_list \<lparr>wikipedia_search = \<lambda>t. io_return [t], page_html = \<lambda>t. io_return ''<p/>'',
        find_all_infobox = \<lambda>h. [], re_search = \<lambda>p t. None, re_escape = \<lambda>s. s\<rparr>)
     [''what'', ''is'', ''the'', ''length'', ''of'', ''runway'', ''4l'', ''at'', ''heathrow'']
     () = (Inl (LookupError ''Page has no infobox''), ())"
proof -
  let ?E = "\<lparr>wikipedia_search = \<lambda>t. io_return [t], page_html = \<lambda>t. io_return ''<p/>'',
        find_all_infobox = \<lambda>h. [], re_search = \<lambda>p t. None, re_escape = \<lambda>s. s\<rparr>
        :: unit extern"
  let ?src =
    "[''what'', ''is'', ''the'', ''length'', ''of'', ''runway'', ''4l'', ''at'', ''heathrow'']"
  have page: "get_page_html ?E ''heathrow'' () = (Inr ''<p/>'', ())"
    by (simp add: get_page_html_def io_bind_def io_return_def)
  have none: "find_all_infobox ?E ''<p/>'' = []" by simp
  have m: "match (split ''what is the length of runway _ at %'') ?src =
      Some [''4l'', ''heathrow'']"
    by (simp add: pa_list_patterns multi_scan.simps)
  from no_infobox_lookup_error [OF page none, of "''4l''"]
  have "\<forall>src. match (split ''what is the length of runway _ at %'') src =
        Some [''4l'', ''heathrow''] \<longrightarrow>
      search_pa_list (pa_list ?E) src () = (Inl (LookupError ''Page has no infobox''), ())"
    by blast
  with m show ?thesis by blast
qed

section \<open>Properties of the tokenizer\<close>

lemma lower_char_qmark: "lower_char c = CHR ''?'' \<longleftrightarrow> c = CHR ''?''"
proof
  assume "c = CHR ''?''"
  then show "lower_char c = CHR ''?''"
    by (simp add: lower_char_def upper_chars_def lower_chars_def)
next
  assume low: "lower_char c = CHR ''?''"
  show "c = CHR ''?''"
  proof (cases "map_of (zip upper_chars lower_chars) c")
    case None
    with low show ?thesis by (simp add: lower_char_def)
  next
    case (Some l)
    then have "(c, l) \<in> set (zip upper_chars lower_chars)" by (rule map_of_SomeD)
    then have "l \<in> set lower_chars" by (rule set_zip_rightD)
    then have "l \<noteq> CHR ''?''" by (auto simp: lower_chars_def)
    with low Some show ?thesis by (simp add: lower_char_def)
  qed
qed

lemma split_from_tokens:
  "t \<in> set (split_from cur s) \<Longrightarrow>
   t \<noteq> [] \<and> set t \<subseteq> set cur \<union> {c \<in> set s. \<not> isspace c}"
proof (induction s arbitrary: cur)
  case Nil
  then show ?case by (auto split: if_splits)
next
  case (Cons c cs)
  show ?case
  proof (cases "isspace c")
    case True
    with Cons.prems have "t = cur \<and> cur \<noteq> [] \<or> t \<in> set (split_from [] cs)"
      by (auto split: if_splits)
    then show ?thesis
    proof
      assume "t = cur \<and> cur \<noteq> []" then show ?thesis by auto
    next
      assume "t \<in> set (split_from [] cs)"
      from Cons.IH [OF this] show ?thesis by auto
    qed
  next
    case False
    with Cons.prems have "t \<in> set (split_from (cur @ [c]) cs)" by simp
    from Cons.IH [OF this] False show ?thesis by auto
  qed
qed

lemma concat_split_from:
  "concat (split_from cur s) = cur @ filter (\<lambda>c. \<not> isspace c) s"
  by (induction s arbitrary: cur) auto

lemma query_tokens_agree:
  assumes "CHR ''?'' \<notin> set (butlast line)"
  shows "query_tokens line = spec_query_tokens line"
proof (cases line rule: rev_cases)
  case Nil
  then show ?thesis
    by (simp add: query_tokens_def spec_query_tokens_def strip_trailing_qmark_def
        replace_with_empty_def lower_def)
next
  case (snoc xs x)
  with assms have "CHR ''?'' \<notin> set xs" by simp
  then have xs: "filter (\<lambda>c. c \<noteq> CHR ''?'') xs = xs" by (auto simp: filter_id_conv)
  show ?thesis
  proof (cases "x = CHR ''?''")
    case True
    with snoc xs have "replace_with_empty (CHR ''?'') line = xs"
      by (simp add: replace_with_empty_def)
    moreover from snoc True have "strip_trailing_qmark (lower line) = lower xs"
      by (simp add: strip_trailing_qmark_def lower_def lower_char_qmark)
    ultimately show ?thesis by (simp add: query_tokens_def spec_query_tokens_def)
  next
    case False
    with snoc xs have "replace_with_empty (CHR ''?'') line = line"
      by (simp add: replace_with_empty_def)
    moreover from snoc False have "strip_trailing_qmark (lower line) = lower line"
      by (simp add: strip_trailing_qmark_def lower_def lower_char_qmark)
    ultimately show ?thesis by (simp add: query_tokens_def spec_query_tokens_def)
  qed
qed

text \<open>
  Claim C8, as amended. The query loop removes every query mark of the line, wherever
  it stands, then lower-cases the line and splits it on whitespace. So no token is empty,
  no token contains a query mark or a whitespace character, and the tokens put together
  are the lower-cased characters of the line that are neither query marks nor
  whitespace. On a line with no query mark before its last character this is the
  tokenizer of the specification (lower case, one trailing query mark stripped, split).
\<close>

theorem query_tokens_remove_every_qmark:
  "query_tokens line = split (lower (filter (\<lambda>c. c \<noteq> CHR ''?'') line)) \<and>
   (\<forall>t \<in> set (query_tokens line).
      t \<noteq> [] \<and> CHR ''?'' \<notin> set t \<and> (\<forall>c \<in> set t. \<not> isspace c)) \<and>
   concat (query_tokens line) =
     filter (\<lambda>c. \<not> isspace c) (lower (filter (\<lambda>c. c \<noteq> CHR ''?'') line)) \<and>
   (CHR ''?'' \<notin> set (butlast line) \<longrightarrow> query_tokens line = spec_query_tokens line)"
proof (intro conjI ballI impI)
  let ?s = "lower (filter (\<lambda>c. c \<noteq> CHR ''?'') line)"
  show eq: "query_tokens line = split ?s"
    by (simp add: query_tokens_def replace_with_empty_def)
  show "concat (query_tokens line) = filter (\<lambda>c. \<not> isspace c) ?s"
    by (simp add: eq split_def concat_split_from)
  have noq: "CHR ''?'' \<notin> set ?s"
  proof
    assume "CHR ''?'' \<in> set ?s"
    then have "CHR ''?'' \<in> lower_char ` set (filter (\<lambda>c. c \<noteq> CHR ''?'') line)"
      by (simp only: lower_def set_map)
    then obtain c where c: "c \<in> set (filter (\<lambda>c. c \<noteq> CHR ''?'') line)"
      and low: "CHR ''?'' = lower_char c" by (rule imageE)
    from c have "c \<noteq> CHR ''?''" by simp
    moreover from low have "lower_char c = CHR ''?''" by (rule sym)
    ultimately show False by (simp only: lower_char_qmark)
  qed
  {
    fix t assume "t \<in> set (query_tokens line)"
    then have "t \<in> set (split_from [] ?s)" by (simp add: eq split_def)
    from split_from_tokens [OF this]
    have t: "t \<noteq> []" "set t \<subseteq> {c \<in> set ?s. \<not> isspace c}" by simp_all
    show "t \<noteq> []" by (rule t(1))
    show "CHR ''?'' \<notin> set t" using t(2) noq by blast
    show "\<not> isspace c" if "c \<in> set t" for c using t(2) that by blast
  }
  show "query_tokens line = spec_query_tokens line" if "CHR ''?'' \<notin> set (butlast line)"
    using that by (rule query_tokens_agree)
qed

theorem query_tokens_remove_every_qmark_witness:
  "CHR ''?'' \<notin> set (butlast ''When was Ada born?'') \<and>
   query_tokens ''When was Ada born?'' = [''when'', ''was'', ''ada'', ''born''] \<and>
   spec_query_tokens ''When was Ada born?'' = [''when'', ''was'', ''ada'', ''born''] \<and>
   ''when'' \<in> set (query_tokens ''When was Ada born?'') \<and> CHR ''?'' \<notin> set ''when''"
proof -
  have h: "CHR ''?'' \<notin> set (butlast ''When was Ada born?'')" by simp
  have v: "query_tokens ''When was Ada born?'' = [''when'', ''was'', ''ada'', ''born'']"
    by (simp add: query_tokens_def split_def lower_def lower_char_def upper_chars_def
        lower_chars_def replace_with_empty_def isspace_def)
  from query_tokens_remove_every_qmark [of "''When was Ada born?''"] h
  have "query_tokens ''When was Ada born?'' = spec_query_tokens ''When was Ada born?''"
    by blast
  with h v show ?thesis by simp
qed

text \<open>
  The claim as it was stated fails on a line with a query mark inside: the
  specification's tokenizer keeps it in the token, the program drops it.
\<close>

theorem query_tokens_inner_qmark_counterexample:
  "query_tokens ''Why? Ada'' = [''why'', ''ada''] \<and>
   spec_query_tokens ''Why? Ada'' = [''why?'', ''ada''] \<and>
   query_tokens ''Why? Ada'' \<noteq> spec_query_tokens ''Why? Ada''"
proof -
  have a: "query_tokens ''Why? Ada'' = [''why'', ''ada'']"
    by (simp add: query_tokens_def split_def lower_def lower_char_def upper_chars_def
        lower_chars_def replace_with_empty_def isspace_def)
  have b: "spec_query_tokens ''Why? Ada'' = [''why?'', ''ada'']"
    by (simp add: spec_query_tokens_def strip_trailing_qmark_def split_def lower_def
        lower_char_def upper_chars_def lower_chars_def isspace_def)
  from a b show ?thesis by simp
qed

text \<open>
  Beyond ASCII: the no-break space and the next-line control separate tokens, and a
  Latin-1 capital is lower-cased.
\<close>

lemma query_tokens_latin1:
  "query_tokens [CHR ''a'', CHR 0xA0, CHR 0xC9, CHR ''?'', CHR 0x85, CHR ''B''] =
     [[CHR ''a''], [CHR 0xE9], [CHR ''b'']]"
  by (simp add: query_tokens_def split_def lower_def lower_char_def upper_chars_def
      lower_chars_def replace_with_empty_def isspace_def)

section \<open>Properties of the text cleaner\<close>

lemma sub_runs_subset: "set (sub_runs c xs) \<subseteq> set xs"
  by (induction c xs rule: sub_runs.induct) auto

lemma sub_runs_head: "\<exists>zs. sub_runs c (y # ys) = y # zs"
  by (induction ys arbitrary: y) auto

lemma sub_runs_no_run:
  "successively (\<lambda>a b. \<not> (a = c \<and> b = c)) (sub_runs c xs)"
proof (induction c xs rule: sub_runs.induct)
  case (3 c x y ys)
  obtain zs where zs: "sub_runs c (y # ys) = y # zs"
    using sub_runs_head by blast
  show ?case
  proof (cases "x = c \<and> y = c")
    case True
    with 3 show ?thesis by simp
  next
    case False
    then have e: "sub_runs c (x # y # ys) = x # y # zs" using zs by auto
    from False 3 have "successively (\<lambda>a b. \<not> (a = c \<and> b = c)) (y # zs)"
      by (simp add: zs)
    with False show ?thesis unfolding e by auto
  qed
qed simp_all

lemma sub_runs_keeps_no_run:
  "successively (\<lambda>a b. \<not> (a = d \<and> b = d)) xs \<Longrightarrow>
   successively (\<lambda>a b. \<not> (a = d \<and> b = d)) (sub_runs c xs)"
proof (induction c xs rule: sub_runs.induct)
  case (3 c x y ys)
  obtain zs where zs: "sub_runs c (y # ys) = y # zs"
    using sub_runs_head by blast
  from "3.prems" have xy: "\<not> (x = d \<and> y = d)"
    and rest: "successively (\<lambda>a b. \<not> (a = d \<and> b = d)) (y # ys)" by simp_all
  show ?case
  proof (cases "x = c \<and> y = c")
    case True
    with 3 rest show ?thesis by simp
  next
    case False
    then have e: "sub_runs c (x # y # ys) = x # y # zs" using zs by auto
    from False 3 rest have "successively (\<lambda>a b. \<not> (a = d \<and> b = d)) (y # zs)"
      by (simp add: zs)
    with xy show ?thesis unfolding e by auto
  qed
qed simp_all

lemma sub_runs_fixed:
  "successively (\<lambda>a b. \<not> (a = c \<and> b = c)) xs \<Longrightarrow> sub_runs c xs = xs"
  by (induction c xs rule: sub_runs.induct) auto

lemma successively_nth:
  "successively P xs \<Longrightarrow> Suc i < length xs \<Longrightarrow> P (xs ! i) (xs ! Suc i)"
proof (induction P xs arbitrary: i rule: successively.induct)
  case (3 P x y xs)
  then show ?case by (cases i) simp_all
qed simp_all

lemma clean_text_printable: "set (clean_text t) \<subseteq> set printable"
proof -
  let ?m = "map (\<lambda>char. if char \<in> set printable then char else CHR '' '') t"
  have sp: "CHR '' '' \<in> set printable" by (simp add: printable_def)
  have "set (clean_text t) \<subseteq> set ?m"
    unfolding clean_text_def Let_def
    using sub_runs_subset [of "CHR 0x0A" "sub_runs (CHR '' '') ?m"]
      sub_runs_subset [of "CHR '' ''" ?m] by blast
  moreover have "set ?m \<subseteq> set printable" using sp by auto
  ultimately show ?thesis by blast
qed

lemma clean_text_no_spaces:
  "successively (\<lambda>a b. \<not> (a = CHR '' '' \<and> b = CHR '' '')) (clean_text t)"
  unfolding clean_text_def Let_def
  by (intro sub_runs_keeps_no_run sub_runs_no_run)

lemma clean_text_no_newlines:
  "successively (\<lambda>a b. \<not> (a = CHR 0x0A \<and> b = CHR 0x0A)) (clean_text t)"
  unfolding clean_text_def Let_def by (rule sub_runs_no_run)

lemma clean_text_fixed:
  assumes "set s \<subseteq> set printable"
    and "successively (\<lambda>a b. \<not> (a = CHR '' '' \<and> b = CHR '' '')) s"
    and "successively (\<lambda>a b. \<not> (a = CHR 0x0A \<and> b = CHR 0x0A)) s"
  shows "clean_text s = s"
proof -
  have "map (\<lambda>char. if char \<in> set printable then char else CHR '' '') s = s"
    using assms(1) by (induction s) auto
  then show ?thesis
    unfolding clean_text_def Let_def
    by (simp add: sub_runs_fixed [OF assms(2)] sub_runs_fixed [OF assms(3)])
qed

text \<open>
  Claim C10. \<open>clean_text\<close> is idempotent, every character of its result is one of
  \<open>string.printable\<close>, and its result has neither two spaces in a row nor two newlines
  in a row.
\<close>

theorem clean_text_idempotent:
  "clean_text (clean_text t) = clean_text t \<and>
   set (clean_text t) \<subseteq> set printable \<and>
   (\<forall>i. Suc i < length (clean_text t) \<longrightarrow>
      \<not> (clean_text t ! i = CHR '' '' \<and> clean_text t ! Suc i = CHR '' '')) \<and>
   (\<forall>i. Suc i < length (clean_text t) \<longrightarrow>
      \<not> (clean_text t ! i = CHR 0x0A \<and> clean_text t ! Suc i = CHR 0x0A))"
proof (intro conjI allI impI)
  show "clean_text (clean_text t) = clean_text t"
    by (rule clean_text_fixed [OF clean_text_printable clean_text_no_spaces
          clean_text_no_newlines])
  show "set (clean_text t) \<subseteq> set printable" by (rule clean_text_printable)
next
  fix i assume "Suc i < length (clean_text t)"
  from successively_nth [OF clean_text_no_spaces this]
  show "\<not> (clean_text t ! i = CHR '' '' \<and> clean_text t ! Suc i = CHR '' '')" .
next
  fix i assume "Suc i < length (clean_text t)"
  from successively_nth [OF clean_text_no_newlines this]
  show "\<not> (clean_text t ! i = CHR 0x0A \<and> clean_text t ! Suc i = CHR 0x0A)" .
qed

theorem clean_text_idempotent_witness:
  "clean_text [CHR ''a'', CHR '' '', CHR '' '', CHR 0x0A, CHR 0x0A, CHR 0xE9, CHR ''b''] =
     [CHR ''a'', CHR '' '', CHR 0x0A, CHR '' '', CHR ''b''] \<and>
   Suc 2 < length
     (clean_text [CHR ''a'', CHR '' '', CHR '' '', CHR 0x0A, CHR 0x0A, CHR 0xE9, CHR ''b'']) \<and>
   \<not> (clean_text [CHR ''a'', CHR '' '', CHR '' '', CHR 0x0A, CHR 0x0A, CHR 0xE9, CHR ''b'']
          ! 2 = CHR 0x0A \<and>
      clean_text [CHR ''a'', CHR '' '', CHR '' '', CHR 0x0A, CHR 0x0A, CHR 0xE9, CHR ''b'']
          ! Suc 2 = CHR 0x0A) \<and>
   clean_text [CHR ''a'', CHR '' '', CHR 0x0A, CHR '' '', CHR ''b''] =
     [CHR ''a'', CHR '' '', CHR 0x0A, CHR '' '', CHR ''b'']"
proof -
  let ?t = "[CHR ''a'', CHR '' '', CHR '' '', CHR 0x0A, CHR 0x0A, CHR 0xE9, CHR ''b'']"
  let ?r = "[CHR ''a'', CHR '' '', CHR 0x0A, CHR '' '', CHR ''b'']"
  have v: "clean_text ?t = ?r"
    by (simp add: clean_text_def printable_def)
  have len: "Suc 2 < length (clean_text ?t)" by (simp add: v)
  note c = clean_text_idempotent [of ?t]
  from c have "clean_text (clean_text ?t) = clean_text ?t" by (rule conjunct1)
  then have idem: "clean_text ?r = ?r" by (simp only: v)
  from c len have "\<not> (clean_text ?t ! 2 = CHR 0x0A \<and> clean_text ?t ! Suc 2 = CHR 0x0A)"
    by blast
  with v len idem show ?thesis by blast
qed

end
